theory Spec2Isabelle
  imports Complex_Main "HOL-Library.Word" "HOL-Library.Multiset"
begin

section \<open>Strings of the host language\<close>

text \<open>
  A string of the program is a sequence of UTF-16 code units; \<open>.length\<close> counts code
  units, and a regular expression without the \<open>u\<close> flag matches code unit by code unit.
\<close>

type_synonym jsstring = "16 word list"

definition of_ascii :: "string \<Rightarrow> jsstring" where
  "of_ascii s = map (\<lambda>c. of_nat (of_char c)) s"

text \<open>
  The class \<open>\s\<close> of a regular expression, which is also what \<open>trim()\<close> removes:
  the white space code points and the line terminators of the language.
\<close>

definition is_ws :: "16 word \<Rightarrow> bool" where
  "is_ws c = (c = 0x09 \<or> c = 0x0A \<or> c = 0x0B \<or> c = 0x0C \<or> c = 0x0D \<or> c = 0x20
     \<or> c = 0xA0 \<or> c = 0x1680 \<or> (0x2000 \<le> c \<and> c \<le> 0x200A) \<or> c = 0x2028 \<or> c = 0x2029
     \<or> c = 0x202F \<or> c = 0x205F \<or> c = 0x3000 \<or> c = 0xFEFF)"

definition is_lf :: "16 word \<Rightarrow> bool" where
  "is_lf c = (c = 0x0A)"

definition space :: "16 word" where
  "space = 0x20"

definition trim :: "jsstring \<Rightarrow> jsstring" where
  "trim s = rev (dropWhile is_ws (rev (dropWhile is_ws s)))"

text \<open>
  \<open>s.replace(/C+/g, rep)\<close> for a character class \<open>C\<close>: scanning from the left, every
  maximal run of characters of the class is replaced by \<open>rep\<close>.
\<close>

function replace_runs :: "(16 word \<Rightarrow> bool) \<Rightarrow> jsstring \<Rightarrow> jsstring \<Rightarrow> jsstring" where
  "replace_runs p rep [] = []"
| "replace_runs p rep (c # cs) =
     (if p c then rep @ replace_runs p rep (dropWhile p cs)
      else c # replace_runs p rep cs)"
  by pat_completeness auto
termination
  by (relation "measure (\<lambda>(p, rep, s). length s)")
     (auto simp: length_dropWhile_le less_Suc_eq_le)

text \<open>\<open>s.replace(/C/g, rep)\<close>: every single character of the class is replaced.\<close>

definition replace_each :: "(16 word \<Rightarrow> bool) \<Rightarrow> jsstring \<Rightarrow> jsstring \<Rightarrow> jsstring" where
  "replace_each p rep s = concat (map (\<lambda>c. if p c then rep else [c]) s)"

text \<open>
  \<open>s.split(/\s+/)\<close>: the pieces of \<open>s\<close> between the maximal runs of white space. A
  run at the start or at the end of \<open>s\<close> leaves an empty piece there, and the empty string
  splits into one empty piece. \<open>cur\<close> is the piece being read.
\<close>

function split_loop :: "jsstring \<Rightarrow> jsstring \<Rightarrow> jsstring list" where
  "split_loop cur [] = [cur]"
| "split_loop cur (c # cs) =
     (if is_ws c then cur # split_loop [] (dropWhile is_ws cs)
      else split_loop (cur @ [c]) cs)"
  by pat_completeness auto
termination
  by (relation "measure (\<lambda>(cur, s). length s)")
     (auto simp: length_dropWhile_le less_Suc_eq_le)

definition split_ws :: "jsstring \<Rightarrow> jsstring list" where
  "split_ws s = split_loop [] s"

section \<open>Content filter and cleaner\<close>

definition MIN_CONTENT_LENGTH :: nat where
  "MIN_CONTENT_LENGTH = 20"

definition MIN_WORD_COUNT :: nat where
  "MIN_WORD_COUNT = 5"

text \<open>\<open>countWords\<close>: trim, split at white space, drop the empty pieces, count.\<close>

definition countWords :: "jsstring \<Rightarrow> nat" where
  "countWords text = length (filter (\<lambda>word. length word > 0) (split_ws (trim text)))"

text \<open>
  The predicate of the first filter of \<open>ingestPDF\<close>, on the text of a page.
\<close>

definition page_keep :: "jsstring \<Rightarrow> bool" where
  "page_keep content =
     (let trimmedContent = trim content
      in length trimmedContent > MIN_CONTENT_LENGTH
         \<and> countWords trimmedContent \<ge> MIN_WORD_COUNT)"

text \<open>
  The predicate of the filter after cleaning, on the cleaned text of a chunk.
\<close>

definition final_keep :: "jsstring \<Rightarrow> bool" where
  "final_keep content = (length content > 0 \<and> countWords content \<ge> MIN_WORD_COUNT)"

text \<open>
  The characters that the last replacement of the cleaning step keeps.
\<close>

definition allowed :: "16 word \<Rightarrow> bool" where
  "allowed c = ((0x20 \<le> c \<and> c \<le> 0x7E) \<or> c = 0x0A \<or> c = 0x0D
     \<or> (0x0600 \<le> c \<and> c \<le> 0x06FF) \<or> (0x0750 \<le> c \<and> c \<le> 0x077F)
     \<or> (0x08A0 \<le> c \<and> c \<le> 0x08FF) \<or> (0xFB50 \<le> c \<and> c \<le> 0xFDFF)
     \<or> (0xFE70 \<le> c \<and> c \<le> 0xFEFF))"

text \<open>The cleaning of one chunk's text in \<open>ingestPDF\<close>.\<close>

definition cleanContent :: "jsstring \<Rightarrow> jsstring" where
  "cleanContent pageContent =
     (let c1 = replace_runs is_ws [space] pageContent;
          c2 = replace_runs is_lf [space] c1;
          c3 = trim c2
      in replace_each (\<lambda>c. \<not> allowed c) [] c3)"

text \<open>
  The specification's reading of the same steps, for comparison: every white space
  character becomes a space and a space that follows a space is dropped; white space is
  removed at both ends; only the characters of the allow-list stay.
\<close>

fun squeeze :: "jsstring \<Rightarrow> jsstring" where
  "squeeze (x # y # zs) =
     (if x = space \<and> y = space then squeeze (y # zs) else x # squeeze (y # zs))"
| "squeeze xs = xs"

definition collapse_spec :: "jsstring \<Rightarrow> jsstring" where
  "collapse_spec s = squeeze (map (\<lambda>c. if is_ws c then space else c) s)"

definition clean_spec :: "jsstring \<Rightarrow> jsstring" where
  "clean_spec s = filter allowed (trim (collapse_spec s))"

text \<open>
  The specification's word count, for comparison: the number of places where a word
  begins, that is where a character that is not white space stands first or follows a
  white space character.
\<close>

fun word_starts :: "bool \<Rightarrow> jsstring \<Rightarrow> nat" where
  "word_starts prev_ws [] = 0"
| "word_starts prev_ws (c # cs) =
     (if \<not> is_ws c \<and> prev_ws then 1 else 0) + word_starts (is_ws c) cs"


section \<open>Numbers and values of the host language\<close>

text \<open>
  A number of the program is a double. The model keeps its special values and takes the
  finite ones as exact reals with one zero: rounding, overflow and underflow are not
  represented.
\<close>

datatype jsnum = NaN | PInf | NInf | Fin real

fun js_neg :: "jsnum \<Rightarrow> jsnum" where
  "js_neg NaN = NaN"
| "js_neg PInf = NInf"
| "js_neg NInf = PInf"
| "js_neg (Fin x) = Fin (- x)"

fun js_add :: "jsnum \<Rightarrow> jsnum \<Rightarrow> jsnum" where
  "js_add (Fin x) (Fin y) = Fin (x + y)"
| "js_add NaN b = NaN"
| "js_add a NaN = NaN"
| "js_add PInf NInf = NaN"
| "js_add NInf PInf = NaN"
| "js_add PInf b = PInf"
| "js_add NInf b = NInf"
| "js_add (Fin x) b = b"


text \<open>An infinity times, or divided by, a finite number of the given sign.\<close>

definition scale_inf :: "jsnum \<Rightarrow> real \<Rightarrow> jsnum" where
  "scale_inf i x = (if x = 0 then NaN else if 0 < x then i else js_neg i)"

fun js_mul :: "jsnum \<Rightarrow> jsnum \<Rightarrow> jsnum" where
  "js_mul (Fin x) (Fin y) = Fin (x * y)"
| "js_mul NaN b = NaN"
| "js_mul a NaN = NaN"
| "js_mul (Fin x) b = scale_inf b x"
| "js_mul a (Fin y) = scale_inf a y"
| "js_mul PInf b = b"
| "js_mul NInf b = js_neg b"

text \<open>Division; the one zero of the model divides as the positive zero does.\<close>

fun js_div :: "jsnum \<Rightarrow> jsnum \<Rightarrow> jsnum" where
  "js_div (Fin x) (Fin y) =
     (if y = 0 then (if x = 0 then NaN else if 0 < x then PInf else NInf) else Fin (x / y))"
| "js_div NaN b = NaN"
| "js_div a NaN = NaN"
| "js_div (Fin x) b = Fin 0"
| "js_div a (Fin y) = (if 0 \<le> y then a else js_neg a)"
| "js_div a b = NaN"

fun js_sqrt :: "jsnum \<Rightarrow> jsnum" where
  "js_sqrt NaN = NaN"
| "js_sqrt PInf = PInf"
| "js_sqrt NInf = NaN"
| "js_sqrt (Fin x) = (if x < 0 then NaN else Fin (sqrt x))"

text \<open>\<open>a === b\<close> and \<open>a > b\<close> on numbers: false as soon as one side is \<open>NaN\<close>.\<close>

definition js_eq :: "jsnum \<Rightarrow> jsnum \<Rightarrow> bool" where
  "js_eq a b = (a \<noteq> NaN \<and> b \<noteq> NaN \<and> a = b)"



text \<open>\<open>n || 0\<close> on a number: zero and \<open>NaN\<close> are falsy.\<close>

definition or_zero :: "jsnum \<Rightarrow> jsnum" where
  "or_zero n = (if n = NaN \<or> n = Fin 0 then Fin 0 else n)"

text \<open>
  The values that the program handles: what a JSON text parses to, and \<open>undefined\<close>.
  An object is the list of its properties in enumeration order, with distinct keys;
  objects are plain (no member replaces \<open>toString\<close> or \<open>valueOf\<close>).
\<close>

datatype jsval =
    JUndefined
  | JNull
  | JBool bool
  | JNum jsnum
  | JStr jsstring
  | JArr "jsval list"
  | JObj "(jsstring \<times> jsval) list"

text \<open>\<open>x.k\<close> and \<open>x?.k\<close> for a key that no prototype defines.\<close>

fun get_prop :: "jsval \<Rightarrow> jsstring \<Rightarrow> jsval" where
  "get_prop (JObj kvs) k = (case map_of kvs k of None \<Rightarrow> JUndefined | Some v \<Rightarrow> v)"
| "get_prop v k = JUndefined"

fun truthy :: "jsval \<Rightarrow> bool" where
  "truthy JUndefined = False"
| "truthy JNull = False"
| "truthy (JBool b) = b"
| "truthy (JNum n) = (n \<noteq> NaN \<and> n \<noteq> Fin 0)"
| "truthy (JStr s) = (s \<noteq> [])"
| "truthy v = True"

subsection \<open>Decimal numerals\<close>

definition is_digit :: "16 word \<Rightarrow> bool" where
  "is_digit c = (0x30 \<le> c \<and> c \<le> 0x39)"

definition digit_of :: "16 word \<Rightarrow> nat" where
  "digit_of c =
     (if 0x30 \<le> c \<and> c \<le> 0x39 then unat c - 48
      else if 0x61 \<le> c \<and> c \<le> 0x66 then unat c - 87
      else if 0x41 \<le> c \<and> c \<le> 0x46 then unat c - 55
      else 0)"

definition is_digit_of_base :: "nat \<Rightarrow> 16 word \<Rightarrow> bool" where
  "is_digit_of_base b c =
     ((is_digit c \<or> (0x61 \<le> c \<and> c \<le> 0x66) \<or> (0x41 \<le> c \<and> c \<le> 0x46)) \<and> digit_of c < b)"

definition digits_value :: "nat \<Rightarrow> jsstring \<Rightarrow> nat" where
  "digits_value b s = foldl (\<lambda>a c. a * b + digit_of c) 0 s"

text \<open>The decimal numeral of a natural number, as a template literal prints an index.\<close>

fun show_nat :: "nat \<Rightarrow> jsstring" where
  "show_nat n =
     (if n < 10 then [of_nat (48 + n)]
      else show_nat (n div 10) @ [of_nat (48 + n mod 10)])"

declare show_nat.simps [simp del]

subsection \<open>\<open>Number(v)\<close>\<close>

text \<open>
  The exponent part of a decimal literal: nothing, or \<open>e\<close> or \<open>E\<close>, an optional
  sign and digits. The result is the exponent; \<open>None\<close> when the text is no exponent part.
\<close>

definition exponent_part :: "jsstring \<Rightarrow> int option" where
  "exponent_part s =
     (case s of
        [] \<Rightarrow> Some 0
      | c # r \<Rightarrow>
          if c = 0x65 \<or> c = 0x45 then
            (case r of
               [] \<Rightarrow> None
             | d # ds \<Rightarrow>
                 if d = 0x2B then
                   (if ds \<noteq> [] \<and> list_all is_digit ds then Some (int (digits_value 10 ds)) else None)
                 else if d = 0x2D then
                   (if ds \<noteq> [] \<and> list_all is_digit ds then Some (- int (digits_value 10 ds)) else None)
                 else if list_all is_digit r then Some (int (digits_value 10 r))
                 else None)
          else None)"

text \<open>
  An unsigned decimal literal: digits, an optional point with digits, an optional exponent,
  with a digit before or after the point.
\<close>

definition unsigned_decimal :: "jsstring \<Rightarrow> real option" where
  "unsigned_decimal s =
     (let ip = takeWhile is_digit s;
          r1 = dropWhile is_digit s;
          has_point = (r1 \<noteq> [] \<and> hd r1 = 0x2E);
          fp = (if has_point then takeWhile is_digit (tl r1) else []);
          r2 = (if has_point then dropWhile is_digit (tl r1) else r1)
      in if ip = [] \<and> fp = [] then None
         else (case exponent_part r2 of
                 None \<Rightarrow> None
               | Some e \<Rightarrow>
                   let m = real (digits_value 10 ip) + real (digits_value 10 fp) / 10 ^ length fp
                   in Some (if 0 \<le> e then m * 10 ^ nat e else m / 10 ^ nat (- e))))"

definition decimal_literal :: "jsstring \<Rightarrow> jsnum" where
  "decimal_literal s =
     (if s = of_ascii ''Infinity'' then PInf
      else (case unsigned_decimal s of None \<Rightarrow> NaN | Some x \<Rightarrow> Fin x))"

definition based_literal :: "nat \<Rightarrow> jsstring \<Rightarrow> jsnum" where
  "based_literal b ds =
     (if ds \<noteq> [] \<and> list_all (is_digit_of_base b) ds then Fin (real (digits_value b ds)) else NaN)"

text \<open>
  \<open>Number(s)\<close> for a string: white space at both ends is ignored, the empty text is
  zero, a text that is no numeric literal is \<open>NaN\<close>.
\<close>

definition str_to_number :: "jsstring \<Rightarrow> jsnum" where
  "str_to_number s =
     (let t = trim s
      in case t of
           [] \<Rightarrow> Fin 0
         | c # r \<Rightarrow>
             if c = 0x30 \<and> r \<noteq> [] \<and> (hd r = 0x78 \<or> hd r = 0x58) then based_literal 16 (tl r)
             else if c = 0x30 \<and> r \<noteq> [] \<and> (hd r = 0x6F \<or> hd r = 0x4F) then based_literal 8 (tl r)
             else if c = 0x30 \<and> r \<noteq> [] \<and> (hd r = 0x62 \<or> hd r = 0x42) then based_literal 2 (tl r)
             else if c = 0x2B then decimal_literal r
             else if c = 0x2D then js_neg (decimal_literal r)
             else decimal_literal t)"

text \<open>
  \<open>Number(v)\<close>. An array converts through its text: the empty array is the empty text,
  an array of one element is the text of that element (empty for \<open>null\<close> and
  \<open>undefined\<close>), a longer array has a comma in its text and is no numeral.
\<close>

fun to_number :: "jsval \<Rightarrow> jsnum" where
  "to_number JUndefined = NaN"
| "to_number JNull = Fin 0"
| "to_number (JBool b) = (if b then Fin 1 else Fin 0)"
| "to_number (JNum n) = n"
| "to_number (JStr s) = str_to_number s"
| "to_number (JArr []) = Fin 0"
| "to_number (JArr [x]) =
     (case x of
        JUndefined \<Rightarrow> Fin 0
      | JNull \<Rightarrow> Fin 0
      | JBool b \<Rightarrow> NaN
      | JNum n \<Rightarrow> n
      | JStr s \<Rightarrow> str_to_number s
      | JArr ys \<Rightarrow> to_number (JArr ys)
      | JObj kvs \<Rightarrow> NaN)"
| "to_number (JArr (x # y # zs)) = NaN"
| "to_number (JObj kvs) = NaN"

section \<open>Similarity scorer\<close>

text \<open>The loop of \<open>cosine\<close>, with its three accumulators.\<close>

function cosine_loop ::
  "jsval list \<Rightarrow> jsval list \<Rightarrow> nat \<Rightarrow> nat \<Rightarrow> jsnum \<times> jsnum \<times> jsnum \<Rightarrow> jsnum \<times> jsnum \<times> jsnum" where
  "cosine_loop a b len i (dot, na, nb) =
     (if i < len then
        (let ai = or_zero (to_number (a ! i));
             bi = or_zero (to_number (b ! i))
         in cosine_loop a b len (i + 1)
              (js_add dot (js_mul ai bi), js_add na (js_mul ai ai), js_add nb (js_mul bi bi)))
      else (dot, na, nb))"
  by pat_completeness auto
termination
  by (relation "measure (\<lambda>(a, b, len, i, acc). len - i)") auto

declare cosine_loop.simps [simp del]

fun cosine :: "jsval \<Rightarrow> jsval \<Rightarrow> jsnum" where
  "cosine (JArr a) (JArr b) =
     (let len = min (length a) (length b)
      in if len = 0 then Fin 0
         else (case cosine_loop a b len 0 (Fin 0, Fin 0, Fin 0) of
                 (dot, na, nb) \<Rightarrow>
                   if js_eq na (Fin 0) \<or> js_eq nb (Fin 0) then Fin 0
                   else js_div dot (js_mul (js_sqrt na) (js_sqrt nb))))"
| "cosine a b = Fin 0"

text \<open>
  The specification's reading, for comparison: vectors cut to the shorter length,
  elements that are not numbers taken as zero, and the quotient of the dot product by
  the product of the magnitudes unless a magnitude is zero.
\<close>

definition js_sum :: "jsnum list \<Rightarrow> jsnum" where
  "js_sum xs = foldl js_add (Fin 0) xs"

definition dot_spec :: "jsnum list \<Rightarrow> jsnum list \<Rightarrow> jsnum" where
  "dot_spec xs ys = js_sum (map (\<lambda>(x, y). js_mul x y) (zip xs ys))"

definition magnitude_spec :: "jsnum list \<Rightarrow> jsnum" where
  "magnitude_spec xs = js_sqrt (js_sum (map (\<lambda>x. js_mul x x) xs))"

definition coerce_spec :: "jsval \<Rightarrow> jsnum" where
  "coerce_spec v = (case to_number v of NaN \<Rightarrow> Fin 0 | n \<Rightarrow> n)"

fun cosine_spec :: "jsval \<Rightarrow> jsval \<Rightarrow> jsnum" where
  "cosine_spec (JArr a) (JArr b) =
     (if a = [] \<or> b = [] then Fin 0
      else (let n = min (length a) (length b);
                xs = map coerce_spec (take n a);
                ys = map coerce_spec (take n b)
            in if magnitude_spec xs = Fin 0 \<or> magnitude_spec ys = Fin 0 then Fin 0
               else js_div (dot_spec xs ys) (js_mul (magnitude_spec xs) (magnitude_spec ys))))"
| "cosine_spec a b = Fin 0"


section \<open>Embedding store\<close>

datatype error = TypeError | SyntaxError | IOError | ServiceError | QueryEmbeddingError

text \<open>
  A file is known by the JSON document that its text denotes, which is the value that
  \<open>JSON.parse\<close> returns for it; \<open>OtherFile\<close> is a file whose text is not JSON.
  Writing fails where the path cannot be written, reading where there is no file.
\<close>

datatype file_content = JsonFile jsval | OtherFile

record filesystem =
  files :: "jsstring \<rightharpoonup> file_content"
  writable :: "jsstring \<Rightarrow> bool"

definition write_file :: "filesystem \<Rightarrow> jsstring \<Rightarrow> jsval \<Rightarrow> error + filesystem" where
  "write_file fs path doc =
     (if writable fs path then Inr (fs\<lparr>files := (files fs)(path \<mapsto> JsonFile doc)\<rparr>)
      else Inl IOError)"

definition read_json :: "filesystem \<Rightarrow> jsstring \<Rightarrow> error + jsval" where
  "read_json fs path =
     (case files fs path of
        None \<Rightarrow> Inl IOError
      | Some OtherFile \<Rightarrow> Inl SyntaxError
      | Some (JsonFile v) \<Rightarrow> Inr v)"

text \<open>
  The document that \<open>JSON.stringify\<close> writes for a value, \<open>None\<close> where it writes
  nothing: a property whose value is \<open>undefined\<close> is left out, \<open>undefined\<close> in an
  array and a number that is not finite are written as \<open>null\<close>.
\<close>

fun json_of :: "jsval \<Rightarrow> jsval option" where
  "json_of JUndefined = None"
| "json_of JNull = Some JNull"
| "json_of (JBool b) = Some (JBool b)"
| "json_of (JNum n) = Some (case n of Fin x \<Rightarrow> JNum (Fin x) | _ \<Rightarrow> JNull)"
| "json_of (JStr s) = Some (JStr s)"
| "json_of (JArr xs) =
     Some (JArr (map (\<lambda>x. case json_of x of None \<Rightarrow> JNull | Some d \<Rightarrow> d) xs))"
| "json_of (JObj kvs) =
     Some (JObj (concat (map (\<lambda>(k, v). case json_of v of None \<Rightarrow> [] | Some d \<Rightarrow> [(k, d)]) kvs)))"

section \<open>Ingestion pipeline\<close>

text \<open>A fragment: its text and its metadata, an object that may be missing.\<close>

record document =
  pageContent :: jsstring
  metadata :: "(jsstring \<times> jsval) list option"

text \<open>
  The collaborators of the pipelines, each of which may fail: the PDF loader, the text
  splitter, the embedding service and the chat service.
\<close>

record services =
  load :: "jsstring \<Rightarrow> error + document list"
  splitDocuments :: "document list \<Rightarrow> error + document list"
  embedDocuments :: "jsstring list \<Rightarrow> error + jsnum list list"
  embedQuery :: "jsstring \<Rightarrow> error + jsval"
  invoke :: "jsstring \<Rightarrow> error + jsval"

text \<open>\<open>{...obj, k: v}\<close>: an existing property keeps its place, a new one comes last.\<close>

fun set_prop :: "jsstring \<Rightarrow> jsval \<Rightarrow> (jsstring \<times> jsval) list \<Rightarrow> (jsstring \<times> jsval) list" where
  "set_prop k v [] = [(k, v)]"
| "set_prop k v ((k', v') # kvs) =
     (if k = k' then (k, v) # kvs else (k', v') # set_prop k v kvs)"

definition spread :: "(jsstring \<times> jsval) list option \<Rightarrow> (jsstring \<times> jsval) list" where
  "spread m = (case m of None \<Rightarrow> [] | Some kvs \<Rightarrow> kvs)"

text \<open>\<open>d.metadata?.source ?? ""\<close>\<close>

definition source_of :: "(jsstring \<times> jsval) list option \<Rightarrow> jsval" where
  "source_of m =
     (case m of
        None \<Rightarrow> JStr []
      | Some kvs \<Rightarrow>
          (case map_of kvs (of_ascii ''source'') of
             None \<Rightarrow> JStr []
           | Some JUndefined \<Rightarrow> JStr []
           | Some JNull \<Rightarrow> JStr []
           | Some v \<Rightarrow> v))"

definition clean_doc :: "document \<Rightarrow> nat \<Rightarrow> document" where
  "clean_doc d i =
     \<lparr>pageContent = cleanContent (pageContent d),
      metadata = Some (set_prop (of_ascii ''source'') (source_of (metadata d))
                   (set_prop (of_ascii ''chunkIndex'') (JNum (Fin (real i)))
                      (spread (metadata d))))\<rparr>"

definition chunk_id :: "nat \<Rightarrow> jsstring" where
  "chunk_id index = of_ascii ''chunk-'' @ show_nat index"

text \<open>\<open>vectors[index]\<close>, which is \<open>undefined\<close> past the end.\<close>

definition vector_at :: "jsnum list list \<Rightarrow> nat \<Rightarrow> jsval" where
  "vector_at vectors index =
     (if index < length vectors then JArr (map JNum (vectors ! index)) else JUndefined)"

definition store_record :: "jsnum list list \<Rightarrow> nat \<Rightarrow> document \<Rightarrow> jsval" where
  "store_record vectors index doc =
     JObj [(of_ascii ''id'', JStr (chunk_id index)),
           (of_ascii ''text'', JStr (pageContent doc)),
           (of_ascii ''embedding'', vector_at vectors index),
           (of_ascii ''metadata'', (case metadata doc of None \<Rightarrow> JUndefined | Some kvs \<Rightarrow> JObj kvs))]"

definition embeddingsWithMetadata :: "document list \<Rightarrow> jsnum list list \<Rightarrow> jsval list" where
  "embeddingsWithMetadata finalDocs vectors =
     map (\<lambda>(index, doc). store_record vectors index doc) (enumerate 0 finalDocs)"

text \<open>\<open>fs.writeFileSync(outputPath, JSON.stringify(v, null, 2), "utf-8")\<close>\<close>

definition save_json :: "filesystem \<Rightarrow> jsstring \<Rightarrow> jsval \<Rightarrow> error + filesystem" where
  "save_json fs outputPath v =
     (case json_of v of
        None \<Rightarrow> Inl TypeError
      | Some doc \<Rightarrow> write_file fs outputPath doc)"

text \<open>
  \<open>ingestPDF\<close>. What it prints is left out: the lines that only compute what is
  printed read strings and cannot fail.
\<close>

definition ingestPDF :: "services \<Rightarrow> filesystem \<Rightarrow> jsstring \<Rightarrow> jsstring \<Rightarrow> error + filesystem" where
  "ingestPDF srv fs pdfPath outputPath =
     (case load srv pdfPath of
        Inl e \<Rightarrow> Inl e
      | Inr data \<Rightarrow>
          let filteredDocs = filter (\<lambda>doc. page_keep (pageContent doc)) data
          in if length filteredDocs = 0 then save_json fs outputPath (JArr [])
             else
               (case splitDocuments srv filteredDocs of
                  Inl e \<Rightarrow> Inl e
                | Inr docs \<Rightarrow>
                    if length docs = 0 then save_json fs outputPath (JArr [])
                    else
                      let cleanedDocs = map (\<lambda>(i, d). clean_doc d i) (enumerate 0 docs);
                          finalDocs = filter (\<lambda>doc. final_keep (pageContent doc)) cleanedDocs
                      in if length finalDocs = 0 then save_json fs outputPath (JArr [])
                         else
                           (case embedDocuments srv (map pageContent finalDocs) of
                              Inl e \<Rightarrow> Inl e
                            | Inr vectors \<Rightarrow>
                                save_json fs outputPath
                                  (JArr (embeddingsWithMetadata finalDocs vectors)))))"

section \<open>Store reader\<close>

text \<open>
  The library functions whose results are texts of numbers or of whole values are
  parameters: \<open>JSON.parse\<close> and \<open>JSON.stringify\<close> on a text, the text that a template
  literal gives for a value, and \<open>toFixed(4)\<close>.
\<close>

record host =
  JSON_parse :: "jsstring \<Rightarrow> error + jsval"
  JSON_stringify :: "jsval \<Rightarrow> jsval"
  template_text :: "jsval \<Rightarrow> jsstring"
  toFixed4 :: "jsnum \<Rightarrow> jsstring"

record item =
  item_id :: jsval
  item_embedding :: "jsnum list"
  item_text :: jsval
  item_metadata :: jsval

text \<open>
  One element of the array that \<open>loadEmbeddings\<close> maps over. Reading a property of
  \<open>null\<close> fails, and so does \<open>.map\<close> on an embedding that is truthy and no array.
\<close>

definition load_item :: "host \<Rightarrow> jsval \<Rightarrow> error + item" where
  "load_item h v =
     (if v = JNull \<or> v = JUndefined then Inl TypeError
      else
        (case (if truthy (get_prop v (of_ascii ''embedding''))
               then get_prop v (of_ascii ''embedding'') else JArr []) of
           JArr es \<Rightarrow>
             (case get_prop v (of_ascii ''metadata'') of
                JStr s \<Rightarrow>
                  (case JSON_parse h s of
                     Inl e \<Rightarrow> Inl e
                   | Inr m \<Rightarrow>
                       Inr \<lparr>item_id = get_prop v (of_ascii ''id''),
                            item_embedding = map to_number es,
                            item_text = get_prop v (of_ascii ''text''),
                            item_metadata = m\<rparr>)
              | m \<Rightarrow>
                  Inr \<lparr>item_id = get_prop v (of_ascii ''id''),
                       item_embedding = map to_number es,
                       item_text = get_prop v (of_ascii ''text''),
                       item_metadata = m\<rparr>)
         | _ \<Rightarrow> Inl TypeError))"

text \<open>Mapping over an array stops at the first element that fails.\<close>

fun map_result :: "('a \<Rightarrow> error + 'b) \<Rightarrow> 'a list \<Rightarrow> error + 'b list" where
  "map_result f [] = Inr []"
| "map_result f (x # xs) =
     (case f x of
        Inl e \<Rightarrow> Inl e
      | Inr y \<Rightarrow> (case map_result f xs of Inl e \<Rightarrow> Inl e | Inr ys \<Rightarrow> Inr (y # ys)))"

definition loadEmbeddings :: "host \<Rightarrow> filesystem \<Rightarrow> jsstring \<Rightarrow> error + item list" where
  "loadEmbeddings h fs filePath =
     (case read_json fs filePath of
        Inl e \<Rightarrow> Inl e
      | Inr embeddingsData \<Rightarrow>
          (case embeddingsData of
             JArr elems \<Rightarrow> map_result (load_item h) elems
           | _ \<Rightarrow> Inl TypeError))"


section \<open>Retrieval and answering pipeline\<close>



fun is_array :: "jsval \<Rightarrow> bool" where
  "is_array (JArr xs) = True"
| "is_array v = False"


















section \<open>Auxiliary notions for the proofs\<close>

text \<open>A number that is not negative: a sum of squares is one.\<close>

definition nonneg :: "jsnum \<Rightarrow> bool" where
  "nonneg n = (n = PInf \<or> (\<exists>x\<ge>0. n = Fin x))"


text \<open>The document that is stored for an element of the array that is written.\<close>

definition stored :: "jsval \<Rightarrow> jsval" where
  "stored v = (case json_of v of None \<Rightarrow> JNull | Some d \<Rightarrow> d)"


text \<open>
  A finite number, and the item that the reader returns for the record written at an
  index.
\<close>

fun is_finite :: "jsnum \<Rightarrow> bool" where
  "is_finite (Fin x) = True"
| "is_finite n = False"

definition stored_metadata :: "document \<Rightarrow> jsval" where
  "stored_metadata d = (case metadata d of None \<Rightarrow> JUndefined | Some kvs \<Rightarrow> stored (JObj kvs))"

definition loaded :: "jsnum list list \<Rightarrow> nat \<Rightarrow> document \<Rightarrow> item" where
  "loaded vectors i d =
     \<lparr>item_id = JStr (chunk_id i), item_embedding = vectors ! i,
      item_text = JStr (pageContent d), item_metadata = stored_metadata d\<rparr>"

section \<open>Sample inputs\<close>

text \<open>
  A page with enough text and a page without, collaborators that always answer, and an
  empty file system in which every path can be written.
\<close>

definition sample_page :: document where
  "sample_page =
     \<lparr>pageContent = of_ascii ''The quick brown fox jumps over the lazy dog'',
      metadata = Some [(of_ascii ''source'', JStr (of_ascii ''a.pdf''))]\<rparr>"

definition short_page :: document where
  "short_page = \<lparr>pageContent = of_ascii ''Page 2'', metadata = None\<rparr>"

definition sample_services :: "document list \<Rightarrow> services" where
  "sample_services pages =
     \<lparr>load = (\<lambda>path. Inr pages),
      splitDocuments = (\<lambda>docs. Inr (docs @ docs)),
      embedDocuments = (\<lambda>texts. Inr (map (\<lambda>t. [Fin 1, Fin 0]) texts)),
      embedQuery = (\<lambda>q. Inr (JArr [JNum (Fin 1), JNum (Fin 0)])),
      invoke = (\<lambda>prompt. Inr (JObj [(of_ascii ''content'', JStr (of_ascii ''ok''))]))\<rparr>"

definition sample_fs :: filesystem where
  "sample_fs = \<lparr>files = Map.empty, writable = (\<lambda>path. True)\<rparr>"

definition sample_host :: host where
  "sample_host =
     \<lparr>JSON_parse = (\<lambda>s. if s = of_ascii ''{}'' then Inr (JObj []) else Inl SyntaxError),
      JSON_stringify = (\<lambda>v. JUndefined),
      template_text = (\<lambda>v. case v of JStr s \<Rightarrow> s | _ \<Rightarrow> []),
      toFixed4 = (\<lambda>n. of_ascii ''0.0000'')\<rparr>"






definition succeeded :: "error + 'a \<Rightarrow> bool" where
  "succeeded r = (case r of Inl e \<Rightarrow> False | Inr v \<Rightarrow> True)"

section \<open>Word count and the filters\<close>

lemma word_starts_dropWhile: "word_starts True (dropWhile is_ws cs) = word_starts True cs"
  by (induction cs) auto

lemma word_starts_append_ws:
  "list_all is_ws ys \<Longrightarrow> word_starts b (xs @ ys) = word_starts b xs"
proof (induction xs arbitrary: b)
  case Nil
  then show ?case by (induction ys arbitrary: b) auto
next
  case (Cons x xs)
  then show ?case by simp
qed

lemma split_loop_count:
  "length (filter (\<lambda>word. word \<noteq> []) (split_loop cur s)) =
     (if cur \<noteq> [] then 1 + word_starts False s else word_starts True s)"
  by (induction cur s rule: split_loop.induct) (auto simp: word_starts_dropWhile)

lemma strip_right_decomp:
  "rev (dropWhile P (rev xs)) @ rev (takeWhile P (rev xs)) = xs"
  by (metis rev_append rev_rev_ident takeWhile_dropWhile_id)

lemma word_starts_strip_right:
  "word_starts b (rev (dropWhile is_ws (rev xs))) = word_starts b xs"
proof -
  have "list_all is_ws (rev (takeWhile is_ws (rev xs)))"
    by (simp add: list_all_iff) (meson set_takeWhileD)
  from word_starts_append_ws[OF this, of b "rev (dropWhile is_ws (rev xs))"]
  show ?thesis by (simp add: strip_right_decomp)
qed

lemma word_starts_trim: "word_starts True (trim s) = word_starts True s"
  by (simp add: trim_def word_starts_strip_right word_starts_dropWhile)

lemma countWords_word_starts: "countWords t = word_starts True t"
  by (simp add: countWords_def split_ws_def split_loop_count word_starts_trim)

lemma countWords_trim: "countWords (trim t) = countWords t"
  by (simp add: countWords_word_starts word_starts_trim)

lemma page_keep_iff: "page_keep content = (20 < length (trim content) \<and> 5 \<le> countWords content)"
  by (simp add: page_keep_def Let_def MIN_CONTENT_LENGTH_def MIN_WORD_COUNT_def countWords_trim)

text \<open>
  Claim C7. The first filter keeps a page text if and only if its trimmed length exceeds
  20 and it has at least 5 words, so it is strict on the length and not on the words: a
  text whose trimmed length is 20 and that has 5 words is rejected, one whose trimmed length
  is 21 and that has 5 words is kept. The word count is the number of places where a
  word begins, so it is the number of pieces between the runs of white space, the empty
  pieces not counted.
\<close>

theorem page_filter_boundary:
  "page_keep content = (20 < length (trim content) \<and> 5 \<le> countWords content)
   \<and> (length (trim content) = 20 \<and> countWords content = 5 \<longrightarrow> \<not> page_keep content)
   \<and> (length (trim content) = 21 \<and> countWords content = 5 \<longrightarrow> page_keep content)
   \<and> countWords content = word_starts True content"
  by (simp add: page_keep_iff countWords_word_starts)

theorem page_filter_boundary_witness:
  "length (trim (of_ascii ''  aaaa bbbb cccc ddd e '')) = 20
   \<and> countWords (of_ascii ''  aaaa bbbb cccc ddd e '') = 5
   \<and> \<not> page_keep (of_ascii ''  aaaa bbbb cccc ddd e '')
   \<and> length (trim (of_ascii '' aaaa bbbb cccc ddd ee'')) = 21
   \<and> countWords (of_ascii '' aaaa bbbb cccc ddd ee'') = 5
   \<and> page_keep (of_ascii '' aaaa bbbb cccc ddd ee'')"
proof -
  have a: "length (trim (of_ascii ''  aaaa bbbb cccc ddd e '')) = 20
   \<and> countWords (of_ascii ''  aaaa bbbb cccc ddd e '') = 5"
    by code_simp
  have b: "length (trim (of_ascii '' aaaa bbbb cccc ddd ee'')) = 21
   \<and> countWords (of_ascii '' aaaa bbbb cccc ddd ee'') = 5"
    by code_simp
  show ?thesis
    using a b page_filter_boundary[of "of_ascii ''  aaaa bbbb cccc ddd e ''"]
      page_filter_boundary[of "of_ascii '' aaaa bbbb cccc ddd ee''"]
    by simp
qed

section \<open>The cleaning transform\<close>


lemma squeeze_space_map:
  "squeeze (space # map (\<lambda>c. if is_ws c then space else c) cs) =
     space # squeeze (map (\<lambda>c. if is_ws c then space else c) (dropWhile is_ws cs))"
  by (induction cs) (auto simp: is_ws_def space_def)

lemma squeeze_nonspace: "c \<noteq> space \<Longrightarrow> squeeze (c # xs) = c # squeeze xs"
  by (cases xs) auto

lemma replace_runs_ws: "replace_runs is_ws [space] s = collapse_spec s"
  unfolding collapse_spec_def
proof (induction is_ws "[space]" s rule: replace_runs.induct)
  case 1
  show ?case by simp
next
  case (2 c cs)
  show ?case
  proof (cases "is_ws c")
    case True
    with 2 show ?thesis by (simp add: squeeze_space_map)
  next
    case False
    then have "c \<noteq> space" by (auto simp: is_ws_def space_def)
    with False 2 show ?thesis by (simp add: squeeze_nonspace)
  qed
qed

lemma replace_runs_none: "\<forall>c\<in>set s. \<not> p c \<Longrightarrow> replace_runs p rep s = s"
  by (induction s) auto

lemma replace_runs_ws_no_lf: "\<forall>c\<in>set (replace_runs is_ws [space] s). \<not> is_lf c"
proof (induction is_ws "[space]" s rule: replace_runs.induct)
  case 1
  show ?case by simp
next
  case (2 c cs)
  have a: "\<not> is_lf space" by (simp add: is_lf_def space_def)
  have b: "is_lf c \<Longrightarrow> is_ws c" by (simp add: is_lf_def is_ws_def)
  show ?case
  proof (cases "is_ws c")
    case True
    with 2 a show ?thesis by simp
  next
    case False
    with 2 b show ?thesis by auto
  qed
qed

lemma replace_each_filter: "replace_each (\<lambda>c. \<not> allowed c) [] s = filter allowed s"
  by (induction s) (auto simp: replace_each_def)

lemma cleanContent_spec: "cleanContent s = clean_spec s"
proof -
  have "replace_runs is_lf [space] (replace_runs is_ws [space] s) = replace_runs is_ws [space] s"
    by (rule replace_runs_none[OF replace_runs_ws_no_lf])
  then show ?thesis
    by (simp add: cleanContent_def clean_spec_def Let_def replace_each_filter replace_runs_ws)
qed

lemma cleanContent_allowed: "list_all allowed (cleanContent s)"
  by (simp add: cleanContent_spec clean_spec_def list_all_iff)

text \<open>
  Claim C8. The cleaning of a chunk is the composition that the specification describes:
  every run of white space, line breaks included, becomes one space; white space is
  removed at both ends; every character outside the allow-list is removed. So every
  character of the result is in the allow-list. The text
  \<open>Hello\<close>, two line feeds, two spaces, \<open>world\<close>, two tabs, \<open>!\<close> is cleaned to
  \<open>Hello world !\<close>, and the two code units of an emoji are removed.
\<close>

theorem cleaning_transform:
  "cleanContent s = clean_spec s
   \<and> list_all allowed (cleanContent s)
   \<and> cleanContent (of_ascii ''Hello'' @ [0x0A, 0x0A, 0x20, 0x20] @ of_ascii ''world''
        @ [0x09, 0x09] @ of_ascii ''!'') = of_ascii ''Hello world !''
   \<and> cleanContent (of_ascii ''ok'' @ [0xD83D, 0xDE00]) = of_ascii ''ok''"
proof -
  have "cleanContent (of_ascii ''Hello'' @ [0x0A, 0x0A, 0x20, 0x20] @ of_ascii ''world''
        @ [0x09, 0x09] @ of_ascii ''!'') = of_ascii ''Hello world !''"
    by code_simp
  moreover have "cleanContent (of_ascii ''ok'' @ [0xD83D, 0xDE00]) = of_ascii ''ok''"
    by code_simp
  ultimately show ?thesis
    by (simp add: cleanContent_spec[symmetric] cleanContent_allowed)
qed

section \<open>The filter after cleaning\<close>

lemma countWords_nil: "countWords [] = 0"
  by (simp add: countWords_word_starts)

text \<open>
  Claim C1, as amended. The filter after cleaning keeps a cleaned text if and only if it
  is not empty and has at least 5 words, which is the case if and only if it has at least
  5 words: no minimum of 20 characters is applied there. The filter of the pages is the
  conjunction of this predicate and of the bound on the trimmed length.
\<close>

theorem final_filter_predicate:
  "final_keep t = (0 < length t \<and> 5 \<le> countWords t)
   \<and> final_keep t = (5 \<le> countWords t)
   \<and> page_keep t = (20 < length (trim t) \<and> final_keep t)"
  by (cases t) (auto simp: final_keep_def MIN_WORD_COUNT_def page_keep_iff countWords_nil)

text \<open>
  The cleaned text \<open>a b c d e\<close> is kept by the filter after cleaning, with a trimmed
  length of 9 only.
\<close>

theorem final_filter_counterexample:
  "final_keep (cleanContent (of_ascii ''a b c d e''))
   \<and> \<not> (20 < length (trim (cleanContent (of_ascii ''a b c d e'')))
        \<and> 5 \<le> countWords (cleanContent (of_ascii ''a b c d e'')))"
  by code_simp

section \<open>The similarity scorer\<close>

lemma coerce_spec_or_zero: "coerce_spec v = or_zero (to_number v)"
  by (cases "to_number v") (auto simp: coerce_spec_def or_zero_def)

lemma coerce_spec_not_nan: "coerce_spec v \<noteq> NaN"
  by (cases "to_number v") (auto simp: coerce_spec_def)

lemma square_nonneg: "x \<noteq> NaN \<Longrightarrow> nonneg (js_mul x x)"
  by (cases x) (auto simp: nonneg_def)

lemma add_nonneg: "nonneg a \<Longrightarrow> nonneg b \<Longrightarrow> nonneg (js_add a b)"
  by (auto simp: nonneg_def)

lemma foldl_nonneg:
  "nonneg a \<Longrightarrow> \<forall>x\<in>set xs. nonneg x \<Longrightarrow> nonneg (foldl js_add a xs)"
  by (induction xs arbitrary: a) (auto simp: add_nonneg)

lemma sum_squares_nonneg:
  "nonneg (js_sum (map (\<lambda>x. js_mul x x) (map coerce_spec vs)))"
proof -
  have "nonneg (Fin 0)" by (simp add: nonneg_def)
  then show ?thesis
    unfolding js_sum_def
    by (rule foldl_nonneg) (simp add: square_nonneg coerce_spec_not_nan)
qed

lemma sqrt_zero_iff: "nonneg n \<Longrightarrow> (js_sqrt n = Fin 0) = js_eq n (Fin 0)"
  by (auto simp: nonneg_def js_eq_def)

lemma cosine_loop_fold:
  "len \<le> length a \<Longrightarrow> len \<le> length b \<Longrightarrow>
   cosine_loop a b len i (dot, na, nb) =
     (foldl js_add dot (map (\<lambda>(x, y). js_mul x y)
         (zip (map coerce_spec (drop i (take len a))) (map coerce_spec (drop i (take len b))))),
      foldl js_add na (map (\<lambda>x. js_mul x x) (map coerce_spec (drop i (take len a)))),
      foldl js_add nb (map (\<lambda>x. js_mul x x) (map coerce_spec (drop i (take len b)))))"
proof (induction a b len i "(dot, na, nb)" arbitrary: dot na nb rule: cosine_loop.induct)
  case (1 a b len i dot na nb)
  show ?case
  proof (cases "i < len")
    case False
    then show ?thesis by (simp add: cosine_loop.simps[of a b len i])
  next
    case True
    with 1 have da: "drop i (take len a) = a ! i # drop (Suc i) (take len a)"
      by (metis Cons_nth_drop_Suc length_take min.absorb2 nth_take)
    from True 1 have db: "drop i (take len b) = b ! i # drop (Suc i) (take len b)"
      by (metis Cons_nth_drop_Suc length_take min.absorb2 nth_take)
    show ?thesis
      using True 1
      by (simp add: cosine_loop.simps[of a b len i] Let_def da db coerce_spec_or_zero)
  qed
qed

lemma cosine_refines: "cosine a b = cosine_spec a b"
proof (cases a)
  case (JArr xs)
  note a = this
  show ?thesis
  proof (cases b)
    case (JArr ys)
    show ?thesis
    proof (cases "xs = [] \<or> ys = []")
      case True
      then show ?thesis using a JArr by auto
    next
      case False
      define n where "n = min (length xs) (length ys)"
      define as where "as = map coerce_spec (take n xs)"
      define bs where "bs = map coerce_spec (take n ys)"
      define sq where "sq = (\<lambda>x. js_mul x x)"
      have n0: "n \<noteq> 0" using False by (simp add: n_def)
      have l: "n \<le> length xs" "n \<le> length ys" by (simp_all add: n_def)
      have loop: "cosine_loop xs ys n 0 (Fin 0, Fin 0, Fin 0) =
          (dot_spec as bs, js_sum (map sq as), js_sum (map sq bs))"
        by (simp add: cosine_loop_fold[OF l] dot_spec_def js_sum_def as_def bs_def sq_def)
      have za: "(magnitude_spec as = Fin 0) = js_eq (js_sum (map sq as)) (Fin 0)"
        unfolding magnitude_spec_def as_def sq_def
        by (rule sqrt_zero_iff[OF sum_squares_nonneg])
      have zb: "(magnitude_spec bs = Fin 0) = js_eq (js_sum (map sq bs)) (Fin 0)"
        unfolding magnitude_spec_def bs_def sq_def
        by (rule sqrt_zero_iff[OF sum_squares_nonneg])
      have c: "cosine (JArr xs) (JArr ys) =
          (case cosine_loop xs ys n 0 (Fin 0, Fin 0, Fin 0) of
             (dot, na, nb) \<Rightarrow>
               if js_eq na (Fin 0) \<or> js_eq nb (Fin 0) then Fin 0
               else js_div dot (js_mul (js_sqrt na) (js_sqrt nb)))"
        using False by (cases xs; cases ys; simp add: n_def Let_def)
      have s: "cosine_spec (JArr xs) (JArr ys) =
          (if magnitude_spec as = Fin 0 \<or> magnitude_spec bs = Fin 0 then Fin 0
           else js_div (dot_spec as bs) (js_mul (magnitude_spec as) (magnitude_spec bs)))"
        using False by (simp add: n_def as_def bs_def Let_def)
      have m: "magnitude_spec as = js_sqrt (js_sum (map sq as))"
          "magnitude_spec bs = js_sqrt (js_sum (map sq bs))"
        by (simp_all add: magnitude_spec_def sq_def)
      show ?thesis
        unfolding a JArr c s loop za zb by (simp add: m)
    qed
  qed (simp_all add: a)
qed simp_all

text \<open>
  Claim C3. \<open>cosine\<close> is the function that the specification describes: zero when an
  argument is no array, when one is empty or when a magnitude over the common prefix is
  zero, and otherwise the dot product divided by the product of the magnitudes, over the
  shorter length and with the elements that are not numbers taken as zero. The third
  coordinate of \<open>[1, 0, 0]\<close> is ignored against \<open>[1, 0]\<close>, and the score is 1.
\<close>

theorem cosine_contract:
  "cosine a b = cosine_spec a b
   \<and> (\<not> is_array a \<or> \<not> is_array b \<longrightarrow> cosine a b = Fin 0)
   \<and> cosine (JArr []) b = Fin 0
   \<and> cosine a (JArr []) = Fin 0
   \<and> cosine (JArr [JNum (Fin 1), JNum (Fin 0), JNum (Fin 0)]) (JArr [JNum (Fin 1), JNum (Fin 0)])
       = cosine (JArr [JNum (Fin 1), JNum (Fin 0)]) (JArr [JNum (Fin 1), JNum (Fin 0)])
   \<and> cosine (JArr [JNum (Fin 1), JNum (Fin 0)]) (JArr [JNum (Fin 1), JNum (Fin 0)]) = Fin 1"
proof -
  have e1: "cosine (JArr [JNum (Fin 1), JNum (Fin 0)]) (JArr [JNum (Fin 1), JNum (Fin 0)]) = Fin 1"
    by (simp add: cosine_loop.simps or_zero_def js_eq_def Let_def)
  have e2: "cosine (JArr [JNum (Fin 1), JNum (Fin 0), JNum (Fin 0)])
      (JArr [JNum (Fin 1), JNum (Fin 0)]) = Fin 1"
    by (simp add: cosine_loop.simps or_zero_def js_eq_def Let_def)
  have n: "\<not> is_array a \<or> \<not> is_array b \<longrightarrow> cosine a b = Fin 0"
    by (cases a; cases b; simp)
  have l: "cosine (JArr []) b = Fin 0"
    by (cases b; simp)
  have r: "cosine a (JArr []) = Fin 0"
    by (cases a; simp)
  show ?thesis
    using e1 e2 n l r cosine_refines by simp
qed

theorem cosine_contract_witness:
  "\<not> is_array (JStr (of_ascii ''x''))
   \<and> cosine (JStr (of_ascii ''x'')) (JArr [JNum (Fin 1)]) = Fin 0"
  using cosine_contract [of "JStr (of_ascii ''x'')" "JArr [JNum (Fin 1)]"] by simp

section \<open>The ingestion pipeline\<close>

lemma save_empty: "save_json fs out (JArr []) = write_file fs out (JArr [])"
  by (simp add: save_json_def)

text \<open>
  Claim C6. When the loader has answered and no fragment is left at one of the three
  checkpoints (no page passes the first filter, the splitter returns no chunk, no cleaned
  chunk passes the second filter), the run of \<open>ingestPDF\<close> is the writing of the empty
  array to the output path: where that path can be written, it returns normally and the
  store file holds the empty JSON array.
\<close>

theorem empty_content_outcome:
  assumes "load srv pdfPath = Inr data"
    and "filter (\<lambda>doc. page_keep (pageContent doc)) data = []
      \<or> splitDocuments srv (filter (\<lambda>doc. page_keep (pageContent doc)) data) = Inr []
      \<or> (\<exists>docs. splitDocuments srv (filter (\<lambda>doc. page_keep (pageContent doc)) data) = Inr docs
            \<and> filter (\<lambda>doc. final_keep (pageContent doc))
                 (map (\<lambda>(i, d). clean_doc d i) (enumerate 0 docs)) = [])"
  shows "ingestPDF srv fs pdfPath outputPath = write_file fs outputPath (JArr [])
    \<and> (writable fs outputPath \<longrightarrow>
         ingestPDF srv fs pdfPath outputPath
           = Inr (fs\<lparr>files := (files fs)(outputPath \<mapsto> JsonFile (JArr []))\<rparr>))"
proof -
  have "ingestPDF srv fs pdfPath outputPath = write_file fs outputPath (JArr [])"
    using assms by (auto simp: ingestPDF_def Let_def save_empty split: sum.splits)
  then show ?thesis by (simp add: write_file_def)
qed

theorem empty_content_outcome_witness:
  "load (sample_services [short_page]) (of_ascii ''a.pdf'') = Inr [short_page]
   \<and> filter (\<lambda>doc. page_keep (pageContent doc)) [short_page] = []
   \<and> writable sample_fs (of_ascii ''e.json'')
   \<and> ingestPDF (sample_services [short_page]) sample_fs (of_ascii ''a.pdf'') (of_ascii ''e.json'')
       = Inr (sample_fs\<lparr>files := (files sample_fs)(of_ascii ''e.json'' \<mapsto> JsonFile (JArr []))\<rparr>)"
proof -
  have l: "load (sample_services [short_page]) (of_ascii ''a.pdf'') = Inr [short_page]"
    by (simp add: sample_services_def)
  have k: "\<not> page_keep (pageContent short_page)"
    by code_simp
  then have f: "filter (\<lambda>doc. page_keep (pageContent doc)) [short_page] = []"
    by simp
  have w: "writable sample_fs (of_ascii ''e.json'')"
    by (simp add: sample_fs_def)
  note t = empty_content_outcome[OF l disjI1[OF f], of sample_fs "of_ascii ''e.json''"]
  show ?thesis
    using l f w t by blast
qed






lemma succeededE: "succeeded r \<Longrightarrow> \<exists>v. r = Inr v"
  by (cases r) (auto simp: succeeded_def)


lemma json_of_records:
  "json_of (JArr (embeddingsWithMetadata finalDocs vectors)) =
     Some (JArr (map (\<lambda>(i, d). stored (store_record vectors i d)) (enumerate 0 finalDocs)))"
  by (simp add: embeddingsWithMetadata_def stored_def split_def)







section \<open>Writing the store and reading it back\<close>

lemma keys_distinct:
  "of_ascii ''id'' \<noteq> of_ascii ''text''" "of_ascii ''id'' \<noteq> of_ascii ''embedding''"
  "of_ascii ''id'' \<noteq> of_ascii ''metadata''" "of_ascii ''text'' \<noteq> of_ascii ''embedding''"
  "of_ascii ''text'' \<noteq> of_ascii ''metadata''" "of_ascii ''embedding'' \<noteq> of_ascii ''metadata''"
  by (simp_all add: of_ascii_def)

lemma stored_finite: "is_finite x \<Longrightarrow> to_number (stored (JNum x)) = x"
  by (cases x) (simp_all add: stored_def)

lemma stored_vector:
  "\<forall>x\<in>set v. is_finite x \<Longrightarrow>
     map to_number (map (\<lambda>x. case json_of x of None \<Rightarrow> JNull | Some d \<Rightarrow> d) (map JNum v)) = v"
  using stored_finite by (induction v) (auto simp: stored_def)

lemma stored_object: "\<exists>kvs'. stored (JObj kvs) = JObj kvs'"
  by (simp add: stored_def)

lemma stored_record_shape:
  assumes "i < length vectors"
  shows "stored (store_record vectors i d) =
     JObj ([(of_ascii ''id'', JStr (chunk_id i)),
            (of_ascii ''text'', JStr (pageContent d)),
            (of_ascii ''embedding'',
               JArr (map (\<lambda>x. case json_of x of None \<Rightarrow> JNull | Some d \<Rightarrow> d)
                      (map JNum (vectors ! i))))]
           @ (case metadata d of None \<Rightarrow> [] | Some kvs \<Rightarrow> [(of_ascii ''metadata'', stored (JObj kvs))]))"
  using assms
  by (cases "metadata d") (simp_all add: stored_def store_record_def vector_at_def)

lemma load_stored:
  assumes "i < length vectors" and "\<forall>x\<in>set (vectors ! i). is_finite x"
  shows "load_item h (stored (store_record vectors i d)) = Inr (loaded vectors i d)"
proof (cases "metadata d")
  case None
  then show ?thesis
    using stored_vector[OF assms(2)]
    by (simp add: stored_record_shape[OF assms(1)] load_item_def keys_distinct
        keys_distinct[symmetric] loaded_def stored_metadata_def)
next
  case (Some kvs)
  obtain kvs' where k: "stored (JObj kvs) = JObj kvs'"
    using stored_object by blast
  show ?thesis
    using stored_vector[OF assms(2)] Some
    by (simp add: stored_record_shape[OF assms(1)] load_item_def keys_distinct
        keys_distinct[symmetric] loaded_def stored_metadata_def k)
qed

lemma map_result_all:
  "\<forall>x\<in>set xs. f (k x) = Inr (g x) \<Longrightarrow> map_result f (map k xs) = Inr (map g xs)"
  by (induction xs) auto

lemma load_records:
  assumes "length vectors = length finalDocs"
    and "\<forall>v\<in>set vectors. \<forall>x\<in>set v. is_finite x"
  shows "map_result (load_item h)
      (map (\<lambda>(i, d). stored (store_record vectors i d)) (enumerate 0 finalDocs))
    = Inr (map (\<lambda>(i, d). loaded vectors i d) (enumerate 0 finalDocs))"
proof (rule map_result_all, rule ballI)
  fix p assume p: "p \<in> set (enumerate 0 finalDocs)"
  obtain i d where pd: "p = (i, d)" by (cases p)
  have i: "i < length vectors"
    using p assms(1) by (auto simp: pd in_set_enumerate_eq)
  then have "vectors ! i \<in> set vectors"
    by simp
  then have "\<forall>x\<in>set (vectors ! i). is_finite x"
    using assms(2) by blast
  with i have "load_item h (stored (store_record vectors i d)) = Inr (loaded vectors i d)"
    by (rule load_stored)
  then show "load_item h (case p of (i, d) \<Rightarrow> stored (store_record vectors i d))
      = Inr (case p of (i, d) \<Rightarrow> loaded vectors i d)"
    by (simp add: pd)
qed

text \<open>
  Claim C5. When the records that \<open>ingestPDF\<close> builds from N survivors and their N
  vectors of finite numbers are written, reading the file back gives N items, and the
  id, the text and the embedding of the item at each index are those of the record at
  that index.
\<close>

theorem store_round_trip:
  assumes "length vectors = length finalDocs"
    and "\<forall>v\<in>set vectors. \<forall>x\<in>set v. is_finite x"
    and "save_json fs outputPath (JArr (embeddingsWithMetadata finalDocs vectors)) = Inr fs'"
  shows "\<exists>items. loadEmbeddings h fs' outputPath = Inr items
     \<and> length items = length finalDocs
     \<and> (\<forall>i<length finalDocs.
          item_id (items ! i) = get_prop (embeddingsWithMetadata finalDocs vectors ! i) (of_ascii ''id'')
          \<and> item_text (items ! i) = get_prop (embeddingsWithMetadata finalDocs vectors ! i) (of_ascii ''text'')
          \<and> JArr (map JNum (item_embedding (items ! i)))
              = get_prop (embeddingsWithMetadata finalDocs vectors ! i) (of_ascii ''embedding'')
          \<and> item_id (items ! i) = JStr (chunk_id i)
          \<and> item_text (items ! i) = JStr (pageContent (finalDocs ! i))
          \<and> item_embedding (items ! i) = vectors ! i)"
proof -
  define items where "items = map (\<lambda>(i, d). loaded vectors i d) (enumerate 0 finalDocs)"
  have f: "files fs' outputPath = Some (JsonFile (JArr
      (map (\<lambda>(i, d). stored (store_record vectors i d)) (enumerate 0 finalDocs))))"
    using assms(3)
    by (auto simp: save_json_def json_of_records write_file_def simp del: json_of.simps
        split: if_splits)
  have l: "loadEmbeddings h fs' outputPath = Inr items"
    by (simp add: loadEmbeddings_def read_json_def f load_records[OF assms(1,2)] items_def)
  have n: "length items = length finalDocs"
    by (simp add: items_def)
  have a: "\<forall>i<length finalDocs.
          item_id (items ! i) = get_prop (embeddingsWithMetadata finalDocs vectors ! i) (of_ascii ''id'')
          \<and> item_text (items ! i) = get_prop (embeddingsWithMetadata finalDocs vectors ! i) (of_ascii ''text'')
          \<and> JArr (map JNum (item_embedding (items ! i)))
              = get_prop (embeddingsWithMetadata finalDocs vectors ! i) (of_ascii ''embedding'')
          \<and> item_id (items ! i) = JStr (chunk_id i)
          \<and> item_text (items ! i) = JStr (pageContent (finalDocs ! i))
          \<and> item_embedding (items ! i) = vectors ! i"
    using assms(1)
    by (simp add: items_def embeddingsWithMetadata_def nth_enumerate_eq loaded_def
        store_record_def vector_at_def keys_distinct keys_distinct[symmetric])
  show ?thesis using l n a by blast
qed


theorem store_round_trip_witness:
  "\<exists>fs'. length [[Fin 1, Fin 0]] = length [sample_page]
     \<and> list_all (list_all is_finite) [[Fin 1, Fin 0]]
     \<and> save_json sample_fs (of_ascii ''e.json'')
          (JArr (embeddingsWithMetadata [sample_page] [[Fin 1, Fin 0]])) = Inr fs'
     \<and> (\<exists>items. loadEmbeddings sample_host fs' (of_ascii ''e.json'') = Inr items
          \<and> length items = 1
          \<and> item_id (items ! 0) = JStr (chunk_id 0)
          \<and> item_text (items ! 0) = JStr (pageContent sample_page)
          \<and> item_embedding (items ! 0) = [Fin 1, Fin 0])"
proof -
  have a: "length [[Fin 1, Fin 0]] = length [sample_page]" by simp
  have b: "\<forall>v\<in>set [[Fin 1, Fin 0]]. \<forall>x\<in>set v. is_finite x" by simp
  have "succeeded (save_json sample_fs (of_ascii ''e.json'')
          (JArr (embeddingsWithMetadata [sample_page] [[Fin 1, Fin 0]])))"
    by (simp add: succeeded_def save_json_def write_file_def sample_fs_def
        embeddingsWithMetadata_def)
  from succeededE[OF this] obtain fs' where
    c: "save_json sample_fs (of_ascii ''e.json'')
          (JArr (embeddingsWithMetadata [sample_page] [[Fin 1, Fin 0]])) = Inr fs'"
    by blast
  from store_round_trip[OF a b c, of sample_host] obtain items where
    i: "loadEmbeddings sample_host fs' (of_ascii ''e.json'') = Inr items"
      "length items = length [sample_page]"
      "\<forall>i<length [sample_page]. item_id (items ! i) = JStr (chunk_id i)
          \<and> item_text (items ! i) = JStr (pageContent ([sample_page] ! i))
          \<and> item_embedding (items ! i) = [[Fin 1, Fin 0]] ! i"
    by blast
  from i(3) have "item_id (items ! 0) = JStr (chunk_id 0)
          \<and> item_text (items ! 0) = JStr (pageContent sample_page)
          \<and> item_embedding (items ! 0) = [Fin 1, Fin 0]"
    by simp
  with a b c i(1,2) show ?thesis by auto
qed

section \<open>The store reader\<close>




section \<open>Ranking and answering\<close>

































end
